theory Spec2Isabelle
  imports Main "HOL-Library.Word"
begin

section \<open>Go standard library functions used by the package\<close>

text \<open>
  Go strings and byte slices are sequences of bytes; they are modelled as \<open>string\<close>
  (lists of 8-bit characters), so \<open>length\<close> is Go's \<open>len\<close>. The separators and cut
  sets used by the package are single ASCII bytes, so the functions below take the
  separator as one character.
\<close>

text \<open>\<open>strings.TrimRight(s, cutset)\<close>: drop every trailing byte that is in the cut set.\<close>

definition strings_TrimRight :: "string \<Rightarrow> string \<Rightarrow> string" where
  "strings_TrimRight s cutset = rev (dropWhile (\<lambda>c. c \<in> set cutset) (rev s))"

text \<open>\<open>strings.TrimLeft(s, cutset)\<close>: drop every leading byte that is in the cut set.\<close>

definition strings_TrimLeft :: "string \<Rightarrow> string \<Rightarrow> string" where
  "strings_TrimLeft s cutset = dropWhile (\<lambda>c. c \<in> set cutset) s"

text \<open>\<open>strings.Trim(s, cutset)\<close>: both ends.\<close>

definition strings_Trim :: "string \<Rightarrow> string \<Rightarrow> string" where
  "strings_Trim s cutset = strings_TrimLeft (strings_TrimRight s cutset) cutset"

text \<open>
  \<open>strings.Split(s, sep)\<close> and \<open>bytes.Split(s, sep)\<close> for a one-byte separator: the
  pieces between the separators; the empty input gives one empty piece.
\<close>

fun strings_Split :: "string \<Rightarrow> char \<Rightarrow> string list" where
  "strings_Split [] sep = [[]]"
| "strings_Split (c # s) sep =
     (if c = sep then [] # strings_Split s sep
      else (case strings_Split s sep of
              [] \<Rightarrow> [[c]]
            | w # ws \<Rightarrow> (c # w) # ws))"

definition bytes_Split :: "string \<Rightarrow> char \<Rightarrow> string list" where
  "bytes_Split s sep = strings_Split s sep"

text \<open>
  \<open>strings.SplitN(s, sep, n)\<close> for a one-byte separator and \<open>n \<ge> 0\<close>: at most \<open>n\<close>
  pieces, the last one being the unsplit remainder; \<open>n = 0\<close> gives no piece.
\<close>

fun strings_SplitN :: "string \<Rightarrow> char \<Rightarrow> nat \<Rightarrow> string list" where
  "strings_SplitN s sep 0 = []"
| "strings_SplitN s sep (Suc 0) = [s]"
| "strings_SplitN s sep (Suc (Suc n)) =
     (if sep \<in> set s
      then takeWhile (\<lambda>c. c \<noteq> sep) s
             # strings_SplitN (tl (dropWhile (\<lambda>c. c \<noteq> sep) s)) sep (Suc n)
      else [s])"

text \<open>\<open>strings.HasPrefix(s, prefix)\<close>.\<close>

definition strings_HasPrefix :: "string \<Rightarrow> string \<Rightarrow> bool" where
  "strings_HasPrefix s pre = (length s \<ge> length pre \<and> take (length pre) s = pre)"

text \<open>
  \<open>filepath.Base(path)\<close> on Unix: the empty path gives \<open>.\<close>; trailing slashes are
  stripped; the last element is kept; a path of slashes only gives \<open>/\<close>.
\<close>

definition filepath_Base :: "string \<Rightarrow> string" where
  "filepath_Base path =
     (if path = [] then ''.''
      else (let stripped = rev (dropWhile (\<lambda>c. c = CHR ''/'') (rev path));
                elem = rev (takeWhile (\<lambda>c. c \<noteq> CHR ''/'') (rev stripped))
            in if elem = [] then ''/'' else elem))"

text \<open>The two errors of package \<open>strconv\<close>.\<close>

datatype NumError = ErrSyntax | ErrRange

text \<open>
  \<open>strconv.ParseUint(s, 10, bitSize)\<close>: the digit loop. \<open>n\<close> is a \<open>uint64\<close>; the
  multiplication cannot overflow below the cutoff, the addition can and wraps.
\<close>

fun ParseUint_loop :: "nat \<Rightarrow> nat \<Rightarrow> string \<Rightarrow> nat \<Rightarrow> NumError + nat" where
  "ParseUint_loop cutoff maxVal [] n = Inr n"
| "ParseUint_loop cutoff maxVal (c # s) n =
     (if \<not> (48 \<le> (of_char c :: nat) \<and> (of_char c :: nat) \<le> 57) then Inl ErrSyntax
      else (let d = (of_char c :: nat) - 48 in
            if n \<ge> cutoff then Inl ErrRange
            else (let n10 = n * 10;
                      n1 = (n10 + d) mod 2 ^ 64
                  in if n1 < n10 \<or> n1 > maxVal then Inl ErrRange
                     else ParseUint_loop cutoff maxVal s n1)))"

definition strconv_ParseUint10 :: "string \<Rightarrow> nat \<Rightarrow> NumError + nat" where
  "strconv_ParseUint10 s bitSize =
     (if s = [] then Inl ErrSyntax
      else ParseUint_loop ((2 ^ 64 - 1) div 10 + 1) (2 ^ bitSize - 1) s 0)"

text \<open>
  \<open>strconv.ParseInt(s, 10, bitSize)\<close> for \<open>bitSize > 0\<close>: an optional sign, then
  \<open>ParseUint\<close>, then the range check for the signed type. A range error of
  \<open>ParseUint\<close> carries the largest unsigned value into the signed range check.
\<close>

definition strconv_ParseInt10 :: "string \<Rightarrow> nat \<Rightarrow> NumError + int" where
  "strconv_ParseInt10 s bitSize =
     (if s = [] then Inl ErrSyntax
      else (let neg = (hd s = CHR ''-'');
                s1 = (if hd s = CHR ''+'' \<or> hd s = CHR ''-'' then tl s else s)
            in (case strconv_ParseUint10 s1 bitSize of
                  Inl ErrSyntax \<Rightarrow> Inl ErrSyntax
                | r \<Rightarrow>
                    (let un = (case r of Inr u \<Rightarrow> u | Inl _ \<Rightarrow> 2 ^ bitSize - 1);
                         cutoff = 2 ^ (bitSize - 1)
                     in if \<not> neg \<and> un \<ge> cutoff then Inl ErrRange
                        else if neg \<and> un > cutoff then Inl ErrRange
                        else Inr (if neg then - int un else int un)))))"

text \<open>
  \<open>strconv.Itoa\<close>: the decimal text of an integer, digit by digit from the table
  of digits, with a minus sign for a negative number.
\<close>

fun FormatUint :: "nat \<Rightarrow> string" where
  "FormatUint n =
     (if n < 10 then [''0123456789'' ! n]
      else FormatUint (n div 10) @ [''0123456789'' ! (n mod 10)])"

declare FormatUint.simps [simp del]

definition strconv_Itoa :: "int \<Rightarrow> string" where
  "strconv_Itoa i = (if i < 0 then CHR ''-'' # FormatUint (nat (- i)) else FormatUint (nat i))"

section \<open>The host\<close>

text \<open>
  Errors returned by the operating system are opaque to the package; it only passes
  them on.
\<close>

datatype error = IOError string

text \<open>
  What the package asks of the host: the environment, \<open>filepath.Join\<close>,
  \<open>ioutil.ReadFile\<close>, \<open>os.Open\<close> and \<open>Readdirnames\<close> on a directory,
  \<open>os.FindProcess\<close> and \<open>Process.Signal\<close>. The host is a snapshot: the same
  question gets the same answer during one call.
\<close>

record host =
  os_Getenv :: "string \<Rightarrow> string"
  filepath_Join :: "string list \<Rightarrow> string"
  ioutil_ReadFile :: "string \<Rightarrow> error + string"
  os_Open :: "string \<Rightarrow> error option"
  Readdirnames :: "string \<Rightarrow> error + string list"
  os_FindProcess :: "int \<Rightarrow> error option"
  process_Signal :: "int \<Rightarrow> int \<Rightarrow> error option"

text \<open>Every request made to the host is recorded, in order.\<close>

datatype event =
    EvReadFile string
  | EvOpen string
  | EvReaddirnames string
  | EvFindProcess int
  | EvSignal int int

section \<open>Package gopsutil\<close>

record Process =
  Pid :: "32 word"
  name :: string

definition getEnv :: "host \<Rightarrow> string \<Rightarrow> string \<Rightarrow> string list \<Rightarrow> string" where
  "getEnv h key dfault combineWith =
     (let v0 = os_Getenv h key;
          v = (if v0 = [] then dfault else v0)
      in (case combineWith of
            [] \<Rightarrow> v
          | [c] \<Rightarrow> filepath_Join h [v, c]
          | _ \<Rightarrow> filepath_Join h (v # combineWith)))"

definition hostProc :: "host \<Rightarrow> string list \<Rightarrow> string" where
  "hostProc h combineWith = getEnv h ''HOST_PROC'' ''/proc'' combineWith"

text \<open>
  \<open>readPidsFromDir\<close>: open the directory, list it, keep the names that
  \<open>strconv.ParseInt(fname, 10, 32)\<close> accepts, in listing order.
\<close>

definition readPids_step :: "32 word list \<Rightarrow> string \<Rightarrow> 32 word list" where
  "readPids_step ret fname =
     (case strconv_ParseInt10 fname 32 of
        Inl err \<Rightarrow> ret
      | Inr pid \<Rightarrow> ret @ [word_of_int pid])"

definition readPidsFromDir :: "host \<Rightarrow> string \<Rightarrow> (error + 32 word list) \<times> event list" where
  "readPidsFromDir h path =
     (case os_Open h path of
        Some err \<Rightarrow> (Inl err, [EvOpen path])
      | None \<Rightarrow>
          (case Readdirnames h path of
             Inl err \<Rightarrow> (Inl err, [EvOpen path, EvReaddirnames path])
           | Inr fnames \<Rightarrow>
               (Inr (foldl readPids_step [] fnames), [EvOpen path, EvReaddirnames path])))"

definition pidsWithContext :: "host \<Rightarrow> (error + 32 word list) \<times> event list" where
  "pidsWithContext h = readPidsFromDir h (hostProc h [])"

text \<open>
  \<open>ProcessesWithContext\<close> returns the slice together with the error, as the Go
  function does: on an error the slice is empty.
\<close>

definition ProcessesWithContext :: "host \<Rightarrow> (Process list \<times> error option) \<times> event list" where
  "ProcessesWithContext h =
     (case pidsWithContext h of
        (Inl err, evs) \<Rightarrow> (([], Some err), evs)
      | (Inr pids, evs) \<Rightarrow> ((map (\<lambda>pid. \<lparr>Pid = pid, name = []\<rparr>) pids, None), evs))"

definition Processes :: "host \<Rightarrow> (Process list \<times> error option) \<times> event list" where
  "Processes h = ProcessesWithContext h"

text \<open>
  \<open>fillSliceFromCmdlineWithContext\<close>: read the cmdline record; an empty record gives
  the nil slice; one trailing NUL is dropped; the rest is split at NUL.
\<close>

definition fillSliceFromCmdlineWithContext ::
  "host \<Rightarrow> Process \<Rightarrow> (error + string list) \<times> event list" where
  "fillSliceFromCmdlineWithContext h p =
     (let cmdPath = hostProc h [strconv_Itoa (sint (Pid p)), ''cmdline''] in
      case ioutil_ReadFile h cmdPath of
        Inl err \<Rightarrow> (Inl err, [EvReadFile cmdPath])
      | Inr cmdline \<Rightarrow>
          if length cmdline = 0 then (Inr [], [EvReadFile cmdPath])
          else (let cmdline1 = (if last cmdline = CHR 0x00 then butlast cmdline else cmdline)
                in (Inr (bytes_Split cmdline1 (CHR 0x00)), [EvReadFile cmdPath])))"

definition CmdlineSliceWithContext ::
  "host \<Rightarrow> Process \<Rightarrow> (error + string list) \<times> event list" where
  "CmdlineSliceWithContext h p = fillSliceFromCmdlineWithContext h p"

definition CmdlineSlice :: "host \<Rightarrow> Process \<Rightarrow> (error + string list) \<times> event list" where
  "CmdlineSlice h p = CmdlineSliceWithContext h p"

text \<open>
  The body of \<open>case "Name"\<close> in \<open>NameWithContext\<close>, for the value of one status line:
  the handle's name is set to the trimmed value first; a name of 15 bytes or more
  is then looked up in the cmdline record. The result is the error of the early
  return if there is one, the handle as the code leaves it, and the host requests.
\<close>

definition Name_case :: "host \<Rightarrow> Process \<Rightarrow> string \<Rightarrow> error option \<times> Process \<times> event list" where
  "Name_case h p val =
     (let p1 = p\<lparr>name := strings_Trim val [CHR '' '', CHR 0x09]\<rparr> in
      if length (name p1) \<ge> 15 then
        (case CmdlineSlice h p1 of
           (Inl err, evs) \<Rightarrow> (Some err, p1, evs)
         | (Inr cmdlineSlice, evs) \<Rightarrow>
             if length cmdlineSlice > 0 then
               (let extendedName = filepath_Base (cmdlineSlice ! 0) in
                if strings_HasPrefix extendedName (name p1)
                then (None, p1\<lparr>name := extendedName\<rparr>, evs)
                else (None, p1\<lparr>name := cmdlineSlice ! 0\<rparr>, evs))
             else (None, p1, evs))
      else (None, p1, []))"

text \<open>
  The loop over the lines of the status record. A line without a tab is skipped; a
  line whose key, with its trailing colons removed, is \<open>Name\<close> runs the case above;
  an error there returns at once.
\<close>

fun Name_lines :: "host \<Rightarrow> Process \<Rightarrow> string list \<Rightarrow> error option \<times> Process \<times> event list" where
  "Name_lines h p [] = (None, p, [])"
| "Name_lines h p (line # lines) =
     (let tabParts = strings_SplitN line (CHR 0x09) 2 in
      if length tabParts < 2 then Name_lines h p lines
      else (let val = tabParts ! 1 in
            if strings_TrimRight (tabParts ! 0) '':'' = ''Name'' then
              (case Name_case h p val of
                 (Some err, p1, evs) \<Rightarrow> (Some err, p1, evs)
               | (None, p1, evs) \<Rightarrow>
                   (case Name_lines h p1 lines of
                      (r, p2, evs2) \<Rightarrow> (r, p2, evs @ evs2)))
            else Name_lines h p lines))"

text \<open>
  \<open>NameWithContext\<close> returns the pair of Go results (the name and the error), the
  handle as the call leaves it, and the host requests it made. On an error the
  returned name is the empty string.
\<close>

definition NameWithContext ::
  "host \<Rightarrow> Process \<Rightarrow> (string \<times> error option) \<times> Process \<times> event list" where
  "NameWithContext h p =
     (if name p = [] then
        (let statPath = hostProc h [strconv_Itoa (sint (Pid p)), ''status''] in
         case ioutil_ReadFile h statPath of
           Inl err \<Rightarrow> (([], Some err), p, [EvReadFile statPath])
         | Inr contents \<Rightarrow>
             (case Name_lines h p (strings_Split contents (CHR 0x0A)) of
                (Some err, p1, evs) \<Rightarrow> (([], Some err), p1, EvReadFile statPath # evs)
              | (None, p1, evs) \<Rightarrow> ((name p1, None), p1, EvReadFile statPath # evs)))
      else ((name p, None), p, []))"

definition Name :: "host \<Rightarrow> Process \<Rightarrow> (string \<times> error option) \<times> Process \<times> event list" where
  "Name h p = NameWithContext h p"

text \<open>
  \<open>SendSignalWithContext\<close>: find the process, then signal it; either step can fail.
\<close>

definition SendSignalWithContext :: "host \<Rightarrow> Process \<Rightarrow> int \<Rightarrow> error option \<times> event list" where
  "SendSignalWithContext h p sig =
     (let pid = sint (Pid p) in
      case os_FindProcess h pid of
        Some err \<Rightarrow> (Some err, [EvFindProcess pid])
      | None \<Rightarrow>
          (case process_Signal h pid sig of
             Some err \<Rightarrow> (Some err, [EvFindProcess pid, EvSignal pid sig])
           | None \<Rightarrow> (None, [EvFindProcess pid, EvSignal pid sig])))"

definition SendSignal :: "host \<Rightarrow> Process \<Rightarrow> int \<Rightarrow> error option \<times> event list" where
  "SendSignal h p sig = SendSignalWithContext h p sig"

section \<open>The dispatcher\<close>

text \<open>
  The loop of \<open>SignalProcs\<close> over the handles. The error of \<open>Name\<close> is assigned to
  the blank identifier; only the returned name is compared. The handles are local
  to the call, so the loop returns the error and the host requests only.
\<close>

fun SignalProcs_loop :: "host \<Rightarrow> string \<Rightarrow> int \<Rightarrow> Process list \<Rightarrow> error option \<times> event list" where
  "SignalProcs_loop h flProcName flProcSignal [] = (None, [])"
| "SignalProcs_loop h flProcName flProcSignal (p # procs) =
     (case Name h p of
        ((nm, _), p1, evs) \<Rightarrow>
          if nm = flProcName then
            (case SendSignal h p1 flProcSignal of
               (Some err, evs1) \<Rightarrow> (Some err, evs @ evs1)
             | (None, evs1) \<Rightarrow>
                 (case SignalProcs_loop h flProcName flProcSignal procs of
                    (r, evs2) \<Rightarrow> (r, evs @ evs1 @ evs2)))
          else
            (case SignalProcs_loop h flProcName flProcSignal procs of
               (r, evs2) \<Rightarrow> (r, evs @ evs2)))"

definition SignalProcs :: "host \<Rightarrow> string \<Rightarrow> int \<Rightarrow> error option \<times> event list" where
  "SignalProcs h flProcName flProcSignal =
     (case Processes h of
        ((procs, Some err), evs) \<Rightarrow> (Some err, evs)
      | ((procs, None), evs) \<Rightarrow>
          (case SignalProcs_loop h flProcName flProcSignal procs of
             (r, evs1) \<Rightarrow> (r, evs @ evs1)))"

section \<open>Notions used to state the properties\<close>

text \<open>The handle that \<open>ProcessesWithContext\<close> creates for a process id.\<close>

definition new_Process :: "32 word \<Rightarrow> Process" where
  "new_Process pid = \<lparr>Pid = pid, name = []\<rparr>"

text \<open>The paths of the two records of a process, as \<open>NameWithContext\<close> and
  \<open>fillSliceFromCmdlineWithContext\<close> build them.\<close>

definition statPath :: "host \<Rightarrow> Process \<Rightarrow> string" where
  "statPath h p = hostProc h [strconv_Itoa (sint (Pid p)), ''status'']"

definition cmdPath :: "host \<Rightarrow> Process \<Rightarrow> string" where
  "cmdPath h p = hostProc h [strconv_Itoa (sint (Pid p)), ''cmdline'']"

text \<open>
  A line of a status record is a \<open>Name\<close> line when it has a tab and the text before
  the first tab, without its trailing colons, is \<open>Name\<close>; its value is the text after
  the first tab. \<open>status_Name_values\<close> lists the values of the \<open>Name\<close> lines of a
  record, in order.
\<close>

definition is_Name_line :: "string \<Rightarrow> bool" where
  "is_Name_line line =
     (let tabParts = strings_SplitN line (CHR 0x09) 2
      in length tabParts \<ge> 2 \<and> strings_TrimRight (tabParts ! 0) '':'' = ''Name'')"

definition Name_line_value :: "string \<Rightarrow> string" where
  "Name_line_value line = strings_SplitN line (CHR 0x09) 2 ! 1"

definition status_Name_values :: "string \<Rightarrow> string list" where
  "status_Name_values contents =
     map Name_line_value (filter is_Name_line (strings_Split contents (CHR 0x0A)))"

text \<open>The name that \<open>Name\<close> returns for a handle (empty when it returns an error),
  and whether it returns an error.\<close>

definition returned_name :: "host \<Rightarrow> Process \<Rightarrow> string" where
  "returned_name h p = fst (fst (Name h p))"

definition resolution_fails :: "host \<Rightarrow> Process \<Rightarrow> bool" where
  "resolution_fails h p = (snd (fst (Name h p)) \<noteq> None)"

text \<open>
  The deliveries attempted in a run are the process ids handed to \<open>os.FindProcess\<close>;
  the signals sent are the calls of \<open>Process.Signal\<close>.
\<close>

fun deliveries :: "event list \<Rightarrow> int list" where
  "deliveries [] = []"
| "deliveries (EvFindProcess pid # evs) = pid # deliveries evs"
| "deliveries (ev # evs) = deliveries evs"

fun signals :: "event list \<Rightarrow> (int \<times> int) list" where
  "signals [] = []"
| "signals (EvSignal pid sig # evs) = (pid, sig) # signals evs"
| "signals (ev # evs) = signals evs"

text \<open>
  The names that the signed 32-bit parse accepts, written without reference to the
  parser: an optional sign, at least one decimal digit and nothing else, and a value
  that fits in 32 bits.
\<close>

definition is_digit :: "char \<Rightarrow> bool" where
  "is_digit c = (c \<in> set ''0123456789'')"

definition decimal_value :: "string \<Rightarrow> nat" where
  "decimal_value ds = foldl (\<lambda>n c. 10 * n + (of_char c - 48)) 0 ds"

definition unsigned_part :: "string \<Rightarrow> string" where
  "unsigned_part s = (if s \<noteq> [] \<and> (hd s = CHR ''+'' \<or> hd s = CHR ''-'') then tl s else s)"

definition is_negative :: "string \<Rightarrow> bool" where
  "is_negative s = (s \<noteq> [] \<and> hd s = CHR ''-'')"

definition int32_literal :: "string \<Rightarrow> bool" where
  "int32_literal s =
     (unsigned_part s \<noteq> [] \<and> list_all is_digit (unsigned_part s) \<and>
      (if is_negative s then decimal_value (unsigned_part s) \<le> 2 ^ 31
       else decimal_value (unsigned_part s) < 2 ^ 31))"

definition int32_value :: "string \<Rightarrow> int" where
  "int32_value s =
     (if is_negative s then - int (decimal_value (unsigned_part s))
      else int (decimal_value (unsigned_part s)))"

text \<open>A name that is a non-negative base-10 integer: decimal digits only, at least one.\<close>

definition nonneg_decimal :: "string \<Rightarrow> bool" where
  "nonneg_decimal s = (s \<noteq> [] \<and> list_all is_digit s)"

section \<open>Fixtures\<close>

text \<open>
  A host for concrete runs: no \<open>HOST_PROC\<close> in the environment, path elements joined
  with a slash, the process directory listing \<open>entries\<close>, the files of \<open>files\<close>
  readable and every other file not, and signalling failing for the process ids in
  \<open>dead\<close>.
\<close>

definition join_slash :: "string list \<Rightarrow> string" where
  "join_slash xs = foldr (\<lambda>a b. if b = [] then a else a @ ''/'' @ b) xs []"

definition fixture :: "string list \<Rightarrow> (string \<times> string) list \<Rightarrow> int list \<Rightarrow> host" where
  "fixture entries files dead =
     \<lparr>os_Getenv = (\<lambda>key. []),
      filepath_Join = join_slash,
      ioutil_ReadFile =
        (\<lambda>path. case map_of files path of
                   None \<Rightarrow> Inl (IOError path)
                 | Some contents \<Rightarrow> Inr contents),
      os_Open = (\<lambda>path. None),
      Readdirnames = (\<lambda>path. Inr entries),
      os_FindProcess = (\<lambda>pid. None),
      process_Signal =
        (\<lambda>pid sig. if pid \<in> set dead then Some (IOError ''no such process'') else None)\<rparr>"

text \<open>The status record \<open>Name:<tab>v<newline>\<close>.\<close>

definition status_of :: "string \<Rightarrow> string" where
  "status_of v = ''Name:'' @ [CHR 0x09] @ v @ [CHR 0x0A]"

section \<open>Evaluation lemmas\<close>

lemma strings_SplitN_2:
  "strings_SplitN s sep 2 =
     (if sep \<in> set s
      then [takeWhile (\<lambda>c. c \<noteq> sep) s, tl (dropWhile (\<lambda>c. c \<noteq> sep) s)]
      else [s])"
  by (simp add: numeral_2_eq_2)

lemma hostProc_fixture:
  "hostProc (fixture es fs d) [a, ''status''] = ''/proc/'' @ a @ ''/status''"
  "hostProc (fixture es fs d) [a, ''cmdline''] = ''/proc/'' @ a @ ''/cmdline''"
  "hostProc (fixture es fs d) [] = ''/proc''"
  by (simp_all add: hostProc_def getEnv_def fixture_def join_slash_def)

lemmas path_eval = statPath_def cmdPath_def hostProc_fixture strconv_Itoa_def FormatUint.simps
  new_Process_def

lemma ReadFile_fixture:
  "ioutil_ReadFile (fixture es fs d) path =
     (case map_of fs path of None \<Rightarrow> Inl (IOError path) | Some contents \<Rightarrow> Inr contents)"
  by (simp add: fixture_def)

lemmas status_eval = status_Name_values_def status_of_def is_Name_line_def Name_line_value_def
  strings_SplitN_2 strings_TrimRight_def

lemmas trim_eval = strings_Trim_def strings_TrimLeft_def strings_TrimRight_def

section \<open>Name resolution\<close>


text \<open>Lines that are not \<open>Name\<close> lines leave the handle alone and ask nothing of the host.\<close>

lemma Name_lines_no_Name:
  "filter is_Name_line lines = [] \<Longrightarrow> Name_lines h p lines = (None, p, [])"
  by (induction lines) (auto simp: is_Name_line_def Let_def split: if_splits)

text \<open>With one \<open>Name\<close> line in the record, the loop does what the case does for its value.\<close>

lemma Name_lines_single:
  "map Name_line_value (filter is_Name_line lines) = [v] \<Longrightarrow>
   Name_lines h p lines = Name_case h p v"
proof (induction lines)
  case Nil
  then show ?case by simp
next
  case (Cons line lines)
  show ?case
  proof (cases "is_Name_line line")
    case True
    with Cons.prems have v: "v = Name_line_value line" and rest: "filter is_Name_line lines = []"
      by auto
    obtain r p1 evs where nc: "Name_case h p v = (r, p1, evs)"
      by (cases "Name_case h p v") auto
    from True v nc rest show ?thesis
      by (cases r) (auto simp: is_Name_line_def Name_line_value_def Let_def Name_lines_no_Name)
  next
    case False
    with Cons.prems have "map Name_line_value (filter is_Name_line lines) = [v]"
      by simp
    then have "Name_lines h p lines = Name_case h p v"
      by (rule Cons.IH)
    with False show ?thesis
      by (auto simp: is_Name_line_def Let_def)
  qed
qed

lemma fillSlice_name_irrelevant:
  "fillSliceFromCmdlineWithContext h (p\<lparr>name := nm\<rparr>) = fillSliceFromCmdlineWithContext h p"
  by (simp add: fillSliceFromCmdlineWithContext_def)

lemma CmdlineSlice_eq:
  "CmdlineSlice h (p\<lparr>name := nm\<rparr>) = fillSliceFromCmdlineWithContext h p"
  by (simp add: CmdlineSlice_def CmdlineSliceWithContext_def fillSlice_name_irrelevant)

lemma fillSlice_read:
  "ioutil_ReadFile h (cmdPath h p) = Inr cmdline \<Longrightarrow>
   fst (fillSliceFromCmdlineWithContext h p) =
     Inr (if cmdline = [] then []
          else bytes_Split (if last cmdline = CHR 0x00 then butlast cmdline else cmdline) (CHR 0x00))"
  by (simp add: fillSliceFromCmdlineWithContext_def cmdPath_def Let_def)

lemma NameWithContext_single:
  assumes "name p = []"
    and "ioutil_ReadFile h (statPath h p) = Inr contents"
    and "status_Name_values contents = [v]"
  shows "NameWithContext h p =
     (case Name_case h p v of
        (Some err, p1, evs) \<Rightarrow> (([], Some err), p1, EvReadFile (statPath h p) # evs)
      | (None, p1, evs) \<Rightarrow> ((name p1, None), p1, EvReadFile (statPath h p) # evs))"
  using assms unfolding statPath_def status_Name_values_def
  by (simp add: NameWithContext_def Name_lines_single Let_def)

lemma NameWithContext_cached:
  "name p \<noteq> [] \<Longrightarrow> NameWithContext h p = ((name p, None), p, [])"
  by (simp add: NameWithContext_def)



text \<open>
  C2. A new handle whose status record is readable and has one \<open>Name\<close> line, whose
  trimmed value \<open>nm\<close> has 15 bytes or more, and whose cmdline record splits into a
  first argument \<open>arg0\<close> and possibly more, resolves to the base name of \<open>arg0\<close> when
  that base name has \<open>nm\<close> as a prefix, and to \<open>arg0\<close> itself, unmodified, otherwise.
\<close>

theorem long_name_from_cmdline:
  assumes "name p = []"
    and "ioutil_ReadFile h (statPath h p) = Inr contents"
    and "status_Name_values contents = [v]"
    and "nm = strings_Trim v [CHR '' '', CHR 0x09]"
    and "length nm \<ge> 15"
    and "fst (fillSliceFromCmdlineWithContext h p) = Inr (arg0 # args)"
  shows "fst (NameWithContext h p) =
           ((if strings_HasPrefix (filepath_Base arg0) nm then filepath_Base arg0 else arg0),
            None)"
proof -
  obtain evs where "fillSliceFromCmdlineWithContext h p = (Inr (arg0 # args), evs)"
    using assms(6) by (cases "fillSliceFromCmdlineWithContext h p") auto
  then have "Name_case h p v =
      (None,
       p\<lparr>name := (if strings_HasPrefix (filepath_Base arg0) nm then filepath_Base arg0 else arg0)\<rparr>,
       evs)"
    using assms(4,5) by (simp add: Name_case_def CmdlineSlice_eq Let_def)
  with NameWithContext_single [OF assms(1-3)] show ?thesis
    by simp
qed

theorem long_name_from_cmdline_witness:
  "fst (NameWithContext
      (fixture [] [(''/proc/1/status'', status_of ''averylongprocessname''),
                   (''/proc/1/cmdline'',
                    ''/usr/bin/averylongprocessname-extended'' @ [CHR 0x00] @ ''-v'' @ [CHR 0x00])] [])
      (new_Process 1)) = (''averylongprocessname-extended'', None) \<and>
   fst (NameWithContext
      (fixture [] [(''/proc/1/status'', status_of ''averylongprocessname''),
                   (''/proc/1/cmdline'', ''/opt/tool/run.sh'' @ [CHR 0x00])] [])
      (new_Process 1)) = (''/opt/tool/run.sh'', None)"
proof -
  let ?h1 = "fixture [] [(''/proc/1/status'', status_of ''averylongprocessname''),
                   (''/proc/1/cmdline'',
                    ''/usr/bin/averylongprocessname-extended'' @ [CHR 0x00] @ ''-v'' @ [CHR 0x00])] []"
  let ?h2 = "fixture [] [(''/proc/1/status'', status_of ''averylongprocessname''),
                   (''/proc/1/cmdline'', ''/opt/tool/run.sh'' @ [CHR 0x00])] []"
  have 1: "name (new_Process 1) = []"
    by (simp add: new_Process_def)
  have 2: "ioutil_ReadFile ?h1 (statPath ?h1 (new_Process 1)) = Inr (status_of ''averylongprocessname'')"
          "ioutil_ReadFile ?h2 (statPath ?h2 (new_Process 1)) = Inr (status_of ''averylongprocessname'')"
    by (simp_all add: path_eval ReadFile_fixture)
  have 3: "status_Name_values (status_of ''averylongprocessname'') = [''averylongprocessname'']"
    by (simp add: status_eval)
  have 4: "''averylongprocessname'' = strings_Trim ''averylongprocessname'' [CHR '' '', CHR 0x09]"
    by (simp add: trim_eval)
  have 5: "length ''averylongprocessname'' \<ge> 15"
    by simp
  have "ioutil_ReadFile ?h1 (cmdPath ?h1 (new_Process 1)) =
          Inr (''/usr/bin/averylongprocessname-extended'' @ [CHR 0x00] @ ''-v'' @ [CHR 0x00])"
    by (simp add: path_eval ReadFile_fixture)
  from fillSlice_read [OF this]
  have 6: "fst (fillSliceFromCmdlineWithContext ?h1 (new_Process 1)) =
             Inr [''/usr/bin/averylongprocessname-extended'', ''-v'']"
    by (simp add: bytes_Split_def)
  have "ioutil_ReadFile ?h2 (cmdPath ?h2 (new_Process 1)) = Inr (''/opt/tool/run.sh'' @ [CHR 0x00])"
    by (simp add: path_eval ReadFile_fixture)
  from fillSlice_read [OF this]
  have 7: "fst (fillSliceFromCmdlineWithContext ?h2 (new_Process 1)) = Inr [''/opt/tool/run.sh'']"
    by (simp add: bytes_Split_def)
  show ?thesis
    using long_name_from_cmdline [OF 1 2(1) 3 4 5 6] long_name_from_cmdline [OF 1 2(2) 3 4 5 7]
    by (simp add: filepath_Base_def strings_HasPrefix_def)
qed

lemma fillSlice_empty_iff:
  "fst (fillSliceFromCmdlineWithContext h p) = Inr [] \<longleftrightarrow>
   ioutil_ReadFile h (cmdPath h p) = Inr []"
proof -
  have "strings_Split s sep \<noteq> []" for s sep
    by (induction s) (auto split: list.splits)
  then show ?thesis
    by (auto simp: fillSliceFromCmdlineWithContext_def cmdPath_def Let_def bytes_Split_def
        split: sum.splits)
qed

text \<open>
  C8. A new handle whose status record is readable and has one \<open>Name\<close> line, whose
  trimmed value \<open>nm\<close> has 15 bytes or more, and whose cmdline record is readable and
  empty: the cmdline record yields no argument, and the resolution returns \<open>nm\<close>,
  the name of the status record, and keeps it on the handle.
\<close>

theorem long_name_empty_cmdline:
  assumes "name p = []"
    and "ioutil_ReadFile h (statPath h p) = Inr contents"
    and "status_Name_values contents = [v]"
    and "nm = strings_Trim v [CHR '' '', CHR 0x09]"
    and "length nm \<ge> 15"
    and "ioutil_ReadFile h (cmdPath h p) = Inr []"
  shows "fst (fillSliceFromCmdlineWithContext h p) = Inr [] \<and>
         fst (NameWithContext h p) = (nm, None) \<and>
         name (fst (snd (NameWithContext h p))) = nm"
proof -
  have nil: "fst (fillSliceFromCmdlineWithContext h p) = Inr []"
    using assms(6) by (simp add: fillSlice_empty_iff)
  then obtain evs where "fillSliceFromCmdlineWithContext h p = (Inr [], evs)"
    by (cases "fillSliceFromCmdlineWithContext h p") auto
  then have "Name_case h p v = (None, p\<lparr>name := nm\<rparr>, evs)"
    using assms(4,5) by (simp add: Name_case_def CmdlineSlice_eq Let_def)
  with NameWithContext_single [OF assms(1-3)] nil show ?thesis
    by simp
qed

theorem long_name_empty_cmdline_witness:
  "fst (NameWithContext
      (fixture [] [(''/proc/1/status'', status_of ''averylongprocessname''),
                   (''/proc/1/cmdline'', [])] [])
      (new_Process 1)) = (''averylongprocessname'', None)"
proof -
  let ?h = "fixture [] [(''/proc/1/status'', status_of ''averylongprocessname''),
                   (''/proc/1/cmdline'', [])] []"
  have 1: "name (new_Process 1) = []"
    by (simp add: new_Process_def)
  have 2: "ioutil_ReadFile ?h (statPath ?h (new_Process 1)) = Inr (status_of ''averylongprocessname'')"
    by (simp add: path_eval ReadFile_fixture)
  have 3: "status_Name_values (status_of ''averylongprocessname'') = [''averylongprocessname'']"
    by (simp add: status_eval)
  have 4: "''averylongprocessname'' = strings_Trim ''averylongprocessname'' [CHR '' '', CHR 0x09]"
    by (simp add: trim_eval)
  have 5: "length ''averylongprocessname'' \<ge> 15"
    by simp
  have 6: "ioutil_ReadFile ?h (cmdPath ?h (new_Process 1)) = Inr []"
    by (simp add: path_eval ReadFile_fixture)
  show ?thesis
    using long_name_empty_cmdline [OF 1 2 3 4 5 6] by simp
qed

text \<open>
  C9. A new handle whose status record is readable and has one \<open>Name\<close> line, whose
  trimmed value \<open>nm\<close> has 15 bytes or more, and whose cmdline record cannot be read:
  the first resolution returns the error of the read with the empty name, after
  reading the status record and trying the cmdline record; it leaves \<open>nm\<close> on the
  handle, which is therefore not the handle it was given; and every later
  resolution on that handle, on any host, returns \<open>nm\<close> with no error and without
  any request to the host.
\<close>

theorem unreadable_cmdline_caches_truncated_name:
  assumes "name p = []"
    and "ioutil_ReadFile h (statPath h p) = Inr contents"
    and "status_Name_values contents = [v]"
    and "nm = strings_Trim v [CHR '' '', CHR 0x09]"
    and "length nm \<ge> 15"
    and "ioutil_ReadFile h (cmdPath h p) = Inl err"
  shows "NameWithContext h p =
           (([], Some err), p\<lparr>name := nm\<rparr>, [EvReadFile (statPath h p), EvReadFile (cmdPath h p)]) \<and>
         p\<lparr>name := nm\<rparr> \<noteq> p \<and>
         (\<forall>h'. NameWithContext h' (p\<lparr>name := nm\<rparr>) = ((nm, None), p\<lparr>name := nm\<rparr>, []))"
proof -
  have "fillSliceFromCmdlineWithContext h p = (Inl err, [EvReadFile (cmdPath h p)])"
    using assms(6) by (simp add: fillSliceFromCmdlineWithContext_def cmdPath_def Let_def)
  then have "Name_case h p v = (Some err, p\<lparr>name := nm\<rparr>, [EvReadFile (cmdPath h p)])"
    using assms(4,5) by (simp add: Name_case_def CmdlineSlice_eq Let_def)
  with NameWithContext_single [OF assms(1-3)]
  have first: "NameWithContext h p =
      (([], Some err), p\<lparr>name := nm\<rparr>, [EvReadFile (statPath h p), EvReadFile (cmdPath h p)])"
    by simp
  have ne: "nm \<noteq> []"
    using assms(5) by auto
  then have changed: "p\<lparr>name := nm\<rparr> \<noteq> p"
    using assms(1) by (metis Process.select_convs(2) Process.surjective Process.update_convs(2))
  have "NameWithContext h' (p\<lparr>name := nm\<rparr>) = ((nm, None), p\<lparr>name := nm\<rparr>, [])" for h'
    using ne NameWithContext_cached [of "p\<lparr>name := nm\<rparr>" h'] by simp
  with first changed show ?thesis
    by blast
qed

theorem unreadable_cmdline_caches_truncated_name_witness:
  "NameWithContext (fixture [] [(''/proc/1/status'', status_of ''averylongprocessname'')] [])
     (new_Process 1) =
     (([], Some (IOError ''/proc/1/cmdline'')), \<lparr>Pid = 1, name = ''averylongprocessname''\<rparr>,
      [EvReadFile ''/proc/1/status'', EvReadFile ''/proc/1/cmdline'']) \<and>
   NameWithContext (fixture [] [] []) \<lparr>Pid = 1, name = ''averylongprocessname''\<rparr> =
     ((''averylongprocessname'', None), \<lparr>Pid = 1, name = ''averylongprocessname''\<rparr>, [])"
proof -
  let ?h = "fixture [] [(''/proc/1/status'', status_of ''averylongprocessname'')] []"
  have 1: "name (new_Process 1) = []"
    by (simp add: new_Process_def)
  have 2: "ioutil_ReadFile ?h (statPath ?h (new_Process 1)) = Inr (status_of ''averylongprocessname'')"
    by (simp add: path_eval ReadFile_fixture)
  have 3: "status_Name_values (status_of ''averylongprocessname'') = [''averylongprocessname'']"
    by (simp add: status_eval)
  have 4: "''averylongprocessname'' = strings_Trim ''averylongprocessname'' [CHR '' '', CHR 0x09]"
    by (simp add: trim_eval)
  have 5: "length ''averylongprocessname'' \<ge> 15"
    by simp
  have 6: "ioutil_ReadFile ?h (cmdPath ?h (new_Process 1)) = Inl (IOError ''/proc/1/cmdline'')"
    by (simp add: path_eval ReadFile_fixture)
  show ?thesis
    using unreadable_cmdline_caches_truncated_name [OF 1 2 3 4 5 6]
    by (simp add: path_eval)
qed

text \<open>A resolution changes nothing on a handle but its name.\<close>

lemma Name_case_shape:
  "Name_case h p v = (r, p1, evs) \<Longrightarrow> p1 = p\<lparr>name := name p1\<rparr>"
  by (auto simp: Name_case_def Let_def split: if_splits sum.splits prod.splits)

lemma Name_lines_shape:
  "Name_lines h p lines = (r, p1, evs) \<Longrightarrow> p1 = p\<lparr>name := name p1\<rparr>"
proof (induction lines arbitrary: p r p1 evs)
  case Nil
  then show ?case by simp
next
  case (Cons line lines)
  show ?case
  proof (cases "is_Name_line line")
    case False
    with Cons.prems have "Name_lines h p lines = (r, p1, evs)"
      by (auto simp: is_Name_line_def Let_def split: if_splits)
    then show ?thesis by (rule Cons.IH)
  next
    case True
    obtain r0 p0 evs0 where nc: "Name_case h p (Name_line_value line) = (r0, p0, evs0)"
      by (cases "Name_case h p (Name_line_value line)") auto
    then have p0: "p0 = p\<lparr>name := name p0\<rparr>"
      by (rule Name_case_shape)
    show ?thesis
    proof (cases r0)
      case (Some e)
      with True nc Cons.prems have "p1 = p0"
        by (auto simp: is_Name_line_def Name_line_value_def Let_def)
      with p0 show ?thesis by simp
    next
      case None
      with True nc Cons.prems obtain evs2 where "Name_lines h p0 lines = (r, p1, evs2)"
        by (auto simp: is_Name_line_def Name_line_value_def Let_def split: prod.splits)
      then have "p1 = p0\<lparr>name := name p1\<rparr>"
        by (rule Cons.IH)
      with p0 show ?thesis
        by (metis Process.update_convs(2) Process.surjective)
    qed
  qed
qed

lemma NameWithContext_shape:
  "NameWithContext h p = (r, p1, evs) \<Longrightarrow> p1 = p\<lparr>name := name p1\<rparr>"
  by (auto simp: NameWithContext_def Let_def split: if_splits sum.splits prod.splits option.splits
      dest: Name_lines_shape)

lemmas Name_eval = NameWithContext_def Name_case_def CmdlineSlice_def CmdlineSliceWithContext_def
  fillSliceFromCmdlineWithContext_def bytes_Split_def strings_SplitN_2 trim_eval
  strings_HasPrefix_def filepath_Base_def ReadFile_fixture hostProc_fixture strconv_Itoa_def
  FormatUint.simps new_Process_def status_of_def





section \<open>Signal dispatch\<close>

text \<open>Name resolution only reads files; it finds and signals no process.\<close>

lemma deliveries_append: "deliveries (xs @ ys) = deliveries xs @ deliveries ys"
  by (induction xs rule: deliveries.induct) simp_all

lemma signals_append: "signals (xs @ ys) = signals xs @ signals ys"
  by (induction xs rule: signals.induct) simp_all

lemma fillSlice_quiet:
  "deliveries (snd (fillSliceFromCmdlineWithContext h p)) = [] \<and>
   signals (snd (fillSliceFromCmdlineWithContext h p)) = []"
  by (simp add: fillSliceFromCmdlineWithContext_def Let_def split: sum.splits)

lemma Name_case_quiet:
  "Name_case h p v = (r, p1, evs) \<Longrightarrow> deliveries evs = [] \<and> signals evs = []"
  using fillSlice_quiet [of h p]
  by (auto simp: Name_case_def CmdlineSlice_eq Let_def split: if_splits sum.splits prod.splits)

lemma Name_lines_quiet:
  "Name_lines h p lines = (r, p1, evs) \<Longrightarrow> deliveries evs = [] \<and> signals evs = []"
proof (induction lines arbitrary: p r p1 evs)
  case Nil
  then show ?case by simp
next
  case (Cons line lines)
  show ?case
  proof (cases "is_Name_line line")
    case False
    with Cons.prems have "Name_lines h p lines = (r, p1, evs)"
      by (auto simp: is_Name_line_def Let_def split: if_splits)
    then show ?thesis by (rule Cons.IH)
  next
    case True
    obtain r0 p0 evs0 where nc: "Name_case h p (Name_line_value line) = (r0, p0, evs0)"
      by (cases "Name_case h p (Name_line_value line)") auto
    then have q0: "deliveries evs0 = [] \<and> signals evs0 = []"
      by (rule Name_case_quiet)
    show ?thesis
    proof (cases r0)
      case (Some e)
      with True nc Cons.prems have "evs = evs0"
        by (auto simp: is_Name_line_def Name_line_value_def Let_def)
      with q0 show ?thesis by simp
    next
      case None
      with True nc Cons.prems obtain evs2
        where rest: "Name_lines h p0 lines = (r, p1, evs2)" and evs: "evs = evs0 @ evs2"
        by (auto simp: is_Name_line_def Name_line_value_def Let_def split: prod.splits)
      from rest have "deliveries evs2 = [] \<and> signals evs2 = []"
        by (rule Cons.IH)
      with q0 evs show ?thesis
        by (simp add: deliveries_append signals_append)
    qed
  qed
qed

lemma Name_quiet:
  "deliveries (snd (snd (Name h p))) = [] \<and> signals (snd (snd (Name h p))) = []"
proof -
  obtain r p1 evs where n: "Name h p = (r, p1, evs)"
    by (cases "Name h p") auto
  then have "deliveries evs = [] \<and> signals evs = []"
    by (auto simp: Name_def NameWithContext_def Let_def
        split: if_splits sum.splits prod.splits option.splits dest: Name_lines_quiet)
  with n show ?thesis by simp
qed

lemma Name_Pid: "Pid (fst (snd (Name h p))) = Pid p"
proof -
  obtain r p1 evs where n: "NameWithContext h p = (r, p1, evs)"
    by (cases "NameWithContext h p") auto
  from NameWithContext_shape [OF this] have "Pid p1 = Pid p"
    by (metis Process.select_convs(1) Process.surjective Process.update_convs(2))
  with n show ?thesis by (simp add: Name_def)
qed

lemma SendSignal_Pid: "Pid p1 = Pid p \<Longrightarrow> SendSignal h p1 sig = SendSignal h p sig"
  by (simp add: SendSignal_def SendSignalWithContext_def)

lemma SendSignal_deliveries: "deliveries (snd (SendSignal h p sig)) = [sint (Pid p)]"
  by (simp add: SendSignal_def SendSignalWithContext_def Let_def split: option.splits)

lemma SendSignal_signals:
  "fst (SendSignal h p sig) = None \<Longrightarrow> signals (snd (SendSignal h p sig)) = [(sint (Pid p), sig)]"
  by (simp add: SendSignal_def SendSignalWithContext_def Let_def split: option.splits)

text \<open>One turn of the loop, in terms of the name returned for the handle.\<close>

lemma SignalProcs_loop_Cons:
  "SignalProcs_loop h target sig (p # procs) =
     (if returned_name h p = target then
        (case fst (SendSignal h p sig) of
           Some err \<Rightarrow> (Some err, snd (snd (Name h p)) @ snd (SendSignal h p sig))
         | None \<Rightarrow>
             (fst (SignalProcs_loop h target sig procs),
              snd (snd (Name h p)) @ snd (SendSignal h p sig) @
              snd (SignalProcs_loop h target sig procs)))
      else (fst (SignalProcs_loop h target sig procs),
            snd (snd (Name h p)) @ snd (SignalProcs_loop h target sig procs)))"
proof -
  obtain nm e p1 evs where n: "Name h p = ((nm, e), p1, evs)"
    by (cases "Name h p") auto
  then have "Pid p1 = Pid p"
    using Name_Pid [of h p] by simp
  then have s: "SendSignal h p1 sig = SendSignal h p sig"
    by (rule SendSignal_Pid)
  show ?thesis
    using n s
    by (cases "SendSignal h p sig"; cases "SignalProcs_loop h target sig procs")
       (auto simp: returned_name_def split: option.splits)
qed

lemma SignalProcs_loop_append_ok:
  "fst (SignalProcs_loop h target sig pre) = None \<Longrightarrow>
   SignalProcs_loop h target sig (pre @ post) =
     (fst (SignalProcs_loop h target sig post),
      snd (SignalProcs_loop h target sig pre) @ snd (SignalProcs_loop h target sig post))"
proof (induction pre)
  case Nil
  then show ?case by simp
next
  case (Cons p pre)
  from Cons.prems have "fst (SignalProcs_loop h target sig pre) = None"
    by (auto simp: SignalProcs_loop_Cons simp del: SignalProcs_loop.simps(2)
        split: if_splits option.splits)
  then have IH: "SignalProcs_loop h target sig (pre @ post) =
     (fst (SignalProcs_loop h target sig post),
      snd (SignalProcs_loop h target sig pre) @ snd (SignalProcs_loop h target sig post))"
    by (rule Cons.IH)
  from Cons.prems show ?case
    by (auto simp: SignalProcs_loop_Cons IH simp del: SignalProcs_loop.simps(2)
        split: if_splits option.splits)
qed

lemma SignalProcs_loop_ok_iff:
  "fst (SignalProcs_loop h target sig procs) = None \<longleftrightarrow>
   (\<forall>p\<in>set procs. returned_name h p = target \<longrightarrow> fst (SendSignal h p sig) = None)"
  by (induction procs)
     (auto simp: SignalProcs_loop_Cons simp del: SignalProcs_loop.simps(2) split: option.splits)

lemma SignalProcs_loop_ok_deliveries:
  "fst (SignalProcs_loop h target sig procs) = None \<Longrightarrow>
   deliveries (snd (SignalProcs_loop h target sig procs)) =
     map (\<lambda>p. sint (Pid p)) (filter (\<lambda>p. returned_name h p = target) procs) \<and>
   signals (snd (SignalProcs_loop h target sig procs)) =
     map (\<lambda>p. (sint (Pid p), sig)) (filter (\<lambda>p. returned_name h p = target) procs)"
proof (induction procs)
  case Nil
  then show ?case by simp
next
  case (Cons p procs)
  from Cons.prems have rest: "fst (SignalProcs_loop h target sig procs) = None"
    by (auto simp: SignalProcs_loop_Cons simp del: SignalProcs_loop.simps(2)
        split: if_splits option.splits)
  note IH = Cons.IH [OF rest]
  show ?case
  proof (cases "returned_name h p = target")
    case False
    with IH show ?thesis
      by (simp add: SignalProcs_loop_Cons deliveries_append signals_append Name_quiet
          del: SignalProcs_loop.simps(2))
  next
    case True
    with Cons.prems have ok: "fst (SendSignal h p sig) = None"
      by (auto simp: SignalProcs_loop_Cons simp del: SignalProcs_loop.simps(2)
        split: if_splits option.splits)
    with True IH show ?thesis
      by (simp add: SignalProcs_loop_Cons deliveries_append signals_append Name_quiet
          SendSignal_deliveries SendSignal_signals del: SignalProcs_loop.simps(2))
  qed
qed

lemma Processes_quiet:
  "deliveries (snd (Processes h)) = [] \<and> signals (snd (Processes h)) = []"
  by (simp add: Processes_def ProcessesWithContext_def pidsWithContext_def readPidsFromDir_def
      split: option.splits sum.splits)

lemma SignalProcs_enumerated:
  "Processes h = ((procs, None), evs0) \<Longrightarrow>
   SignalProcs h target sig =
     (fst (SignalProcs_loop h target sig procs), evs0 @ snd (SignalProcs_loop h target sig procs))"
  by (simp add: SignalProcs_def split: prod.splits)



lemma fixture_fields:
  "os_Open (fixture es fs d) path = None"
  "Readdirnames (fixture es fs d) path = Inr es"
  "os_FindProcess (fixture es fs d) pid = None"
  "process_Signal (fixture es fs d) pid sig =
     (if pid \<in> set d then Some (IOError ''no such process'') else None)"
  by (simp_all add: fixture_def)

lemma Processes_fixture:
  "Processes (fixture es fs d) =
     ((map new_Process (foldl readPids_step [] es), None),
      [EvOpen ''/proc'', EvReaddirnames ''/proc''])"
proof -
  have "(\<lambda>pid. \<lparr>Pid = pid, name = []\<rparr>) = new_Process"
    by (simp add: new_Process_def fun_eq_iff)
  then show ?thesis
    by (simp add: Processes_def ProcessesWithContext_def pidsWithContext_def readPidsFromDir_def
        hostProc_fixture fixture_fields)
qed

lemmas ParseInt_eval = readPids_step_def strconv_ParseInt10_def strconv_ParseUint10_def

lemmas Send_eval = SendSignal_def SendSignalWithContext_def fixture_fields


lemmas name_eval = returned_name_def resolution_fails_def Name_def Name_eval Let_def

text \<open>
  C6. When the enumeration succeeds and the name that \<open>Name\<close> returns for each
  enumerated handle differs from the target (string equality), \<open>SignalProcs\<close>
  returns no error, and the run attempts no delivery and sends no signal.
\<close>

theorem no_match_no_signal:
  assumes "Processes h = ((procs, None), evs0)"
    and "\<forall>p\<in>set procs. returned_name h p \<noteq> target"
  shows "fst (SignalProcs h target sig) = None \<and>
         deliveries (snd (SignalProcs h target sig)) = [] \<and>
         signals (snd (SignalProcs h target sig)) = []"
proof -
  have ok: "fst (SignalProcs_loop h target sig procs) = None"
    using assms(2) by (simp add: SignalProcs_loop_ok_iff)
  have none: "filter (\<lambda>p. returned_name h p = target) procs = []"
    using assms(2) by (simp add: filter_empty_conv)
  have quiet: "deliveries evs0 = [] \<and> signals evs0 = []"
    using Processes_quiet [of h] assms(1) by simp
  show ?thesis
    using SignalProcs_loop_ok_deliveries [OF ok] ok none quiet
    by (simp add: SignalProcs_enumerated [OF assms(1)] deliveries_append signals_append)
qed

theorem no_match_no_signal_witness:
  "fst (SignalProcs (fixture [''1'', ''2'']
          [(''/proc/1/status'', status_of ''short''), (''/proc/2/status'', status_of ''short'')] [])
        ''other'' 15) = None \<and>
   deliveries (snd (SignalProcs (fixture [''1'', ''2'']
          [(''/proc/1/status'', status_of ''short''), (''/proc/2/status'', status_of ''short'')] [])
        ''other'' 15)) = [] \<and>
   signals (snd (SignalProcs (fixture [''1'', ''2'']
          [(''/proc/1/status'', status_of ''short''), (''/proc/2/status'', status_of ''short'')] [])
        ''other'' 15)) = []"
proof -
  let ?h = "fixture [''1'', ''2'']
          [(''/proc/1/status'', status_of ''short''), (''/proc/2/status'', status_of ''short'')] []"
  have 1: "Processes ?h = (([new_Process 1, new_Process 2], None),
                           [EvOpen ''/proc'', EvReaddirnames ''/proc''])"
    by (simp add: Processes_fixture ParseInt_eval)
  have 2: "\<forall>p\<in>set [new_Process 1, new_Process 2]. returned_name ?h p \<noteq> ''other''"
    by (simp add: name_eval)
  show ?thesis
    using no_match_no_signal [OF 1 2, of 15] by simp
qed

text \<open>
  C5. Let the enumeration give the handles \<open>pre @ p # post\<close>, let the deliveries to
  the matches among \<open>pre\<close> succeed, and let \<open>p\<close> match and its delivery fail with
  \<open>err\<close>. Then \<open>SignalProcs\<close> returns \<open>err\<close>; the run ends with the failed delivery,
  so that nothing is asked of the host for any handle of \<open>post\<close>; the deliveries
  attempted are those to the matches of \<open>pre\<close>, in order, and then the one to \<open>p\<close>;
  and the signals sent to the matches of \<open>pre\<close> stay in the run.
\<close>



theorem delivery_failure_aborts:
  assumes "Processes h = ((pre @ p # post, None), evs0)"
    and "\<forall>q\<in>set pre. returned_name h q = target \<longrightarrow> fst (SendSignal h q sig) = None"
    and "returned_name h p = target"
    and "fst (SendSignal h p sig) = Some err"
  shows "fst (SignalProcs h target sig) = Some err \<and>
         snd (SignalProcs h target sig) =
           evs0 @ snd (SignalProcs_loop h target sig pre) @ snd (snd (Name h p)) @
           snd (SendSignal h p sig) \<and>
         deliveries (snd (SignalProcs h target sig)) =
           map (\<lambda>q. sint (Pid q)) (filter (\<lambda>q. returned_name h q = target) pre) @ [sint (Pid p)] \<and>
         take (length (filter (\<lambda>q. returned_name h q = target) pre))
              (signals (snd (SignalProcs h target sig))) =
           map (\<lambda>q. (sint (Pid q), sig)) (filter (\<lambda>q. returned_name h q = target) pre)"
proof -
  have ok: "fst (SignalProcs_loop h target sig pre) = None"
    using assms(2) by (simp add: SignalProcs_loop_ok_iff)
  have here: "SignalProcs_loop h target sig (p # post) =
      (Some err, snd (snd (Name h p)) @ snd (SendSignal h p sig))"
    using assms(3,4) by (simp add: SignalProcs_loop_Cons del: SignalProcs_loop.simps(2))
  have loop: "SignalProcs_loop h target sig (pre @ p # post) =
      (Some err, snd (SignalProcs_loop h target sig pre) @ snd (snd (Name h p)) @
                 snd (SendSignal h p sig))"
    using SignalProcs_loop_append_ok [OF ok, of "p # post"] here by simp
  have quiet: "deliveries evs0 = [] \<and> signals evs0 = []"
    using Processes_quiet [of h] assms(1) by simp
  show ?thesis
    using loop quiet SignalProcs_loop_ok_deliveries [OF ok]
    by (simp add: SignalProcs_enumerated [OF assms(1)] deliveries_append signals_append
        Name_quiet SendSignal_deliveries)
qed

theorem delivery_failure_aborts_witness:
  "fst (SignalProcs (fixture [''1'', ''2'', ''3'']
          [(''/proc/1/status'', status_of ''short''), (''/proc/2/status'', status_of ''short''),
           (''/proc/3/status'', status_of ''short'')] [2])
        ''short'' 15) = Some (IOError ''no such process'') \<and>
   deliveries (snd (SignalProcs (fixture [''1'', ''2'', ''3'']
          [(''/proc/1/status'', status_of ''short''), (''/proc/2/status'', status_of ''short''),
           (''/proc/3/status'', status_of ''short'')] [2])
        ''short'' 15)) = [1, 2] \<and>
   take 1 (signals (snd (SignalProcs (fixture [''1'', ''2'', ''3'']
          [(''/proc/1/status'', status_of ''short''), (''/proc/2/status'', status_of ''short''),
           (''/proc/3/status'', status_of ''short'')] [2])
        ''short'' 15))) = [(1, 15)]"
proof -
  let ?h = "fixture [''1'', ''2'', ''3'']
          [(''/proc/1/status'', status_of ''short''), (''/proc/2/status'', status_of ''short''),
           (''/proc/3/status'', status_of ''short'')] [2]"
  have 1: "Processes ?h = (([new_Process 1] @ new_Process 2 # [new_Process 3], None),
                           [EvOpen ''/proc'', EvReaddirnames ''/proc''])"
    by (simp add: Processes_fixture ParseInt_eval)
  have 2: "\<forall>q\<in>set [new_Process 1].
             returned_name ?h q = ''short'' \<longrightarrow> fst (SendSignal ?h q 15) = None"
    by (simp add: Send_eval new_Process_def)
  have 3: "returned_name ?h (new_Process 2) = ''short''"
    by (simp add: name_eval)
  have 4: "fst (SendSignal ?h (new_Process 2) 15) = Some (IOError ''no such process'')"
    by (simp add: Send_eval new_Process_def)
  have 5: "returned_name ?h (new_Process 1) = ''short''"
    by (simp add: name_eval)
  note r = delivery_failure_aborts [OF 1 2 3 4]
  show ?thesis
    using r [THEN conjunct1] r [THEN conjunct2, THEN conjunct2] 5
    by (simp add: new_Process_def)
qed






section \<open>Enumeration\<close>

text \<open>
  The digit loop of \<open>ParseUint\<close> on a 32-bit target: on decimal digits it computes
  the decimal value and reports a range error exactly when the value exceeds
  \<open>2^32 - 1\<close>; on anything else it reports an error.
\<close>

lemma is_digit_iff: "is_digit c \<longleftrightarrow> 48 \<le> (of_char c :: nat) \<and> (of_char c :: nat) \<le> 57"
proof
  assume "is_digit c"
  then show "48 \<le> (of_char c :: nat) \<and> (of_char c :: nat) \<le> 57"
    by (auto simp: is_digit_def)
next
  assume r: "48 \<le> (of_char c :: nat) \<and> (of_char c :: nat) \<le> 57"
  then have "(of_char c :: nat) = 48 \<or> (of_char c :: nat) = 49 \<or> (of_char c :: nat) = 50 \<or>
      (of_char c :: nat) = 51 \<or> (of_char c :: nat) = 52 \<or> (of_char c :: nat) = 53 \<or>
      (of_char c :: nat) = 54 \<or> (of_char c :: nat) = 55 \<or> (of_char c :: nat) = 56 \<or>
      (of_char c :: nat) = 57"
    by arith
  then have "(of_char c :: nat) \<in> of_char ` set ''0123456789''"
    by auto
  then obtain d where "d \<in> set ''0123456789''" and "(of_char c :: nat) = of_char d"
    by blast
  then show "is_digit c"
    by (simp add: is_digit_def)
qed

lemma foldl_digits_mono:
  "n \<le> foldl (\<lambda>n c. 10 * n + ((of_char c :: nat) - 48)) n ds"
proof (induction ds arbitrary: n)
  case Nil
  then show ?case by simp
next
  case (Cons c ds)
  have "n \<le> 10 * n + ((of_char c :: nat) - 48)"
    by simp
  also have "\<dots> \<le> foldl (\<lambda>n c. 10 * n + ((of_char c :: nat) - 48)) (10 * n + ((of_char c :: nat) - 48)) ds"
    by (rule Cons.IH)
  finally show ?case by simp
qed

lemma ParseUint_loop_digits:
  "list_all is_digit ds \<Longrightarrow> n \<le> 4294967295 \<Longrightarrow>
   ParseUint_loop 1844674407370955162 4294967295 ds n =
     (if foldl (\<lambda>n c. 10 * n + ((of_char c :: nat) - 48)) n ds \<le> 4294967295
      then Inr (foldl (\<lambda>n c. 10 * n + ((of_char c :: nat) - 48)) n ds)
      else Inl ErrRange)"
proof (induction ds arbitrary: n)
  case Nil
  then show ?case by simp
next
  case (Cons c ds)
  define d where "d = (of_char c :: nat) - 48"
  define n1 where "n1 = 10 * n + d"
  from Cons.prems have c: "is_digit c" and rest: "list_all is_digit ds"
    by simp_all
  from c have digit: "48 \<le> (of_char c :: nat) \<and> (of_char c :: nat) \<le> 57"
    by (simp add: is_digit_iff)
  have dd: "(of_char c :: nat) - 48 = d"
    by (simp add: d_def)
  have d9: "d \<le> 9"
    using digit unfolding d_def by linarith
  have small: "n * 10 + d < 2 ^ 64"
    using d9 Cons.prems(2) by simp
  have md: "(n * 10 + d) mod 2 ^ 64 = n1"
    using small by (simp add: n1_def)
  have nlt: "\<not> n1 < n * 10"
    by (simp add: n1_def)
  have cut: "\<not> 1844674407370955162 \<le> n"
    using Cons.prems(2) by simp
  have step: "ParseUint_loop 1844674407370955162 4294967295 (c # ds) n =
      (if n1 > 4294967295 then Inl ErrRange
       else ParseUint_loop 1844674407370955162 4294967295 ds n1)"
    by (simp only: ParseUint_loop.simps dd md Let_def digit nlt cut simp_thms if_True if_False)
  have fold: "foldl (\<lambda>n c. 10 * n + ((of_char c :: nat) - 48)) n (c # ds) =
      foldl (\<lambda>n c. 10 * n + ((of_char c :: nat) - 48)) n1 ds"
    by (simp only: foldl.simps dd n1_def)
  show ?case
  proof (cases "n1 \<le> 4294967295")
    case True
    from Cons.IH [OF rest True] True show ?thesis
      by (simp only: step fold) simp
  next
    case False
    have "n1 \<le> foldl (\<lambda>n c. 10 * n + ((of_char c :: nat) - 48)) n1 ds"
      by (rule foldl_digits_mono)
    with False have "\<not> foldl (\<lambda>n c. 10 * n + ((of_char c :: nat) - 48)) n1 ds \<le> 4294967295"
      by linarith
    with False show ?thesis
      by (simp only: step fold) simp
  qed
qed

lemma ParseUint_loop_not_digits:
  "\<not> list_all is_digit ds \<Longrightarrow> \<exists>e. ParseUint_loop cutoff maxVal ds n = Inl e"
proof (induction ds arbitrary: n)
  case Nil
  then show ?case by simp
next
  case (Cons c ds)
  show ?case
  proof (cases "is_digit c")
    case False
    then show ?thesis by (simp add: is_digit_iff)
  next
    case True
    with Cons.prems have "\<not> list_all is_digit ds" by simp
    from Cons.IH [OF this] show ?thesis
      by (simp add: Let_def)
  qed
qed

lemma ParseUint10_32:
  "strconv_ParseUint10 ds 32 =
     (if ds = [] then Inl ErrSyntax
      else ParseUint_loop 1844674407370955162 4294967295 ds 0)"
  by (simp add: strconv_ParseUint10_def)

lemma ParseInt10_32:
  "s \<noteq> [] \<Longrightarrow>
   strconv_ParseInt10 s 32 =
     (case strconv_ParseUint10 (unsigned_part s) 32 of
        Inl ErrSyntax \<Rightarrow> Inl ErrSyntax
      | Inl ErrRange \<Rightarrow> Inl ErrRange
      | Inr u \<Rightarrow>
          if \<not> is_negative s \<and> u \<ge> 2147483648 then Inl ErrRange
          else if is_negative s \<and> u > 2147483648 then Inl ErrRange
          else Inr (if is_negative s then - int u else int u))"
  by (simp add: strconv_ParseInt10_def unsigned_part_def is_negative_def Let_def
      split: sum.splits NumError.splits)

lemma ParseInt_accepts:
  assumes "int32_literal s"
  shows "strconv_ParseInt10 s 32 = Inr (int32_value s)"
proof -
  let ?ds = "unsigned_part s"
  from assms have ne: "?ds \<noteq> []" and digits: "list_all is_digit ?ds"
    by (simp_all add: int32_literal_def)
  from assms have range:
    "is_negative s \<Longrightarrow> decimal_value ?ds \<le> 2147483648"
    "\<not> is_negative s \<Longrightarrow> decimal_value ?ds < 2147483648"
    by (auto simp: int32_literal_def split: if_splits)
  from ne have s: "s \<noteq> []"
    by (auto simp: unsigned_part_def)
  from range have le: "decimal_value ?ds \<le> 4294967295"
    by (cases "is_negative s") simp_all
  have "ParseUint_loop 1844674407370955162 4294967295 ?ds 0 = Inr (decimal_value ?ds)"
    using ParseUint_loop_digits [OF digits, of 0] le by (simp add: decimal_value_def)
  with ne have u: "strconv_ParseUint10 ?ds 32 = Inr (decimal_value ?ds)"
    by (simp add: ParseUint10_32)
  show ?thesis
    using range by (cases "is_negative s") (simp_all add: ParseInt10_32 [OF s] u int32_value_def)
qed

lemma ParseInt_rejects:
  assumes "\<not> int32_literal s"
  shows "\<exists>e. strconv_ParseInt10 s 32 = Inl e"
proof (cases "s = []")
  case True
  then show ?thesis by (simp add: strconv_ParseInt10_def)
next
  case s: False
  let ?ds = "unsigned_part s"
  consider (empty) "?ds = []"
    | (bad) "?ds \<noteq> []" "\<not> list_all is_digit ?ds"
    | (big) "?ds \<noteq> []" "list_all is_digit ?ds" "decimal_value ?ds > 4294967295"
    | (fits) "?ds \<noteq> []" "list_all is_digit ?ds" "decimal_value ?ds \<le> 4294967295"
    by fastforce
  then show ?thesis
  proof cases
    case empty
    then show ?thesis
      by (simp add: ParseInt10_32 [OF s] strconv_ParseUint10_def)
  next
    case bad
    from ParseUint_loop_not_digits [OF bad(2)] obtain e
      where "ParseUint_loop 1844674407370955162 4294967295 ?ds 0 = Inl e"
      by blast
    with bad(1) have "strconv_ParseUint10 ?ds 32 = Inl e"
      by (simp add: ParseUint10_32)
    then show ?thesis
      by (cases e) (simp_all add: ParseInt10_32 [OF s])
  next
    case big
    have "ParseUint_loop 1844674407370955162 4294967295 ?ds 0 = Inl ErrRange"
      using ParseUint_loop_digits [OF big(2), of 0] big(3) by (simp add: decimal_value_def)
    with big(1) have "strconv_ParseUint10 ?ds 32 = Inl ErrRange"
      by (simp add: ParseUint10_32)
    then show ?thesis
      by (simp add: ParseInt10_32 [OF s])
  next
    case fits
    have "ParseUint_loop 1844674407370955162 4294967295 ?ds 0 = Inr (decimal_value ?ds)"
      using ParseUint_loop_digits [OF fits(2), of 0] fits(3) by (simp add: decimal_value_def)
    with fits(1) have u: "strconv_ParseUint10 ?ds 32 = Inr (decimal_value ?ds)"
      by (simp add: ParseUint10_32)
    from assms fits(1,2) have out:
      "is_negative s \<Longrightarrow> decimal_value ?ds > 2147483648"
      "\<not> is_negative s \<Longrightarrow> decimal_value ?ds \<ge> 2147483648"
      by (auto simp: int32_literal_def split: if_splits)
    then show ?thesis
      by (cases "is_negative s") (simp_all add: ParseInt10_32 [OF s] u)
  qed
qed

lemma readPids_step_literal:
  "readPids_step ret f =
     (if int32_literal f then ret @ [word_of_int (int32_value f)] else ret)"
proof (cases "int32_literal f")
  case True
  then show ?thesis
    by (simp add: readPids_step_def ParseInt_accepts)
next
  case False
  from ParseInt_rejects [OF this] obtain e where "strconv_ParseInt10 f 32 = Inl e"
    by blast
  with False show ?thesis
    by (simp add: readPids_step_def)
qed

lemma readPids_filter:
  "foldl readPids_step ret fnames =
     ret @ map (\<lambda>f. word_of_int (int32_value f)) (filter int32_literal fnames)"
  by (induction fnames arbitrary: ret) (simp_all add: readPids_step_literal)

lemma int32_value_range:
  "int32_literal s \<Longrightarrow> - 2147483648 \<le> int32_value s \<and> int32_value s < 2147483648"
  by (auto simp: int32_literal_def int32_value_def split: if_splits)

lemma sint_int32_value:
  "int32_literal s \<Longrightarrow> sint (word_of_int (int32_value s) :: 32 word) = int32_value s"
  using int32_value_range [of s]
  by (simp add: sint_sbintrunc' signed_take_bit_int_eq_self)

lemma hostProc_Readdirnames_update:
  "hostProc (h\<lparr>Readdirnames := f\<rparr>) xs = hostProc h xs"
  by (simp add: hostProc_def getEnv_def Let_def split: list.splits)

lemma Processes_listing:
  assumes "os_Open h (hostProc h []) = None"
    and "Readdirnames h (hostProc h []) = Inr fnames"
  shows "fst (Processes h) =
           (map (\<lambda>f. new_Process (word_of_int (int32_value f))) (filter int32_literal fnames),
            None)"
  using assms
  by (simp add: Processes_def ProcessesWithContext_def pidsWithContext_def readPidsFromDir_def
      readPids_filter new_Process_def comp_def)

text \<open>
  C3, as the code has it. When the process directory can be opened and listed,
  \<open>Processes\<close> returns no error and one handle, in listing order, exactly for the
  entries whose full name the signed 32-bit base-10 parse accepts: an optional
  \<open>+\<close> or \<open>-\<close>, then decimal digits only and at least one, with a value from
  \<open>-2^31\<close> to \<open>2^31 - 1\<close>; the handle's id is that value. Every other entry is
  skipped without an error, and listing only the accepted entries gives the same
  handles.
\<close>

theorem enumerate_int32_names:
  assumes "os_Open h (hostProc h []) = None"
    and "Readdirnames h (hostProc h []) = Inr fnames"
  shows "fst (Processes h) =
           (map (\<lambda>f. new_Process (word_of_int (int32_value f))) (filter int32_literal fnames),
            None) \<and>
         (\<forall>f\<in>set fnames. int32_literal f \<longrightarrow>
            sint (word_of_int (int32_value f) :: 32 word) = int32_value f) \<and>
         fst (Processes (h\<lparr>Readdirnames := \<lambda>path. Inr (filter int32_literal fnames)\<rparr>)) =
           fst (Processes h)"
proof -
  let ?h' = "h\<lparr>Readdirnames := \<lambda>path. Inr (filter int32_literal fnames)\<rparr>"
  have 1: "os_Open ?h' (hostProc ?h' []) = None"
    using assms(1) by (simp add: hostProc_Readdirnames_update)
  have 2: "Readdirnames ?h' (hostProc ?h' []) = Inr (filter int32_literal fnames)"
    by simp
  show ?thesis
    using Processes_listing [OF assms] Processes_listing [OF 1 2]
    by (simp add: sint_int32_value)
qed

lemmas literal_eval = int32_literal_def int32_value_def unsigned_part_def is_negative_def
  is_digit_def decimal_value_def nonneg_decimal_def

theorem enumerate_int32_names_witness:
  "fst (Processes (fixture [''1'', ''self'', ''22'', ''+7'', ''net'', ''007x''] [] [])) =
     ([\<lparr>Pid = 1, name = []\<rparr>, \<lparr>Pid = 22, name = []\<rparr>, \<lparr>Pid = 7, name = []\<rparr>], None) \<and>
   fst (Processes ((fixture [''1'', ''self'', ''22'', ''+7'', ''net'', ''007x''] [] [])
          \<lparr>Readdirnames := \<lambda>path. Inr [''1'', ''22'', ''+7'']\<rparr>)) =
     ([\<lparr>Pid = 1, name = []\<rparr>, \<lparr>Pid = 22, name = []\<rparr>, \<lparr>Pid = 7, name = []\<rparr>], None)"
proof -
  let ?h = "fixture [''1'', ''self'', ''22'', ''+7'', ''net'', ''007x''] [] []"
  have 1: "os_Open ?h (hostProc ?h []) = None"
    by (simp add: fixture_fields)
  have 2: "Readdirnames ?h (hostProc ?h []) = Inr [''1'', ''self'', ''22'', ''+7'', ''net'', ''007x'']"
    by (simp add: fixture_fields)
  have 3: "int32_literal ''1''" "\<not> int32_literal ''self''" "int32_literal ''22''"
          "int32_literal ''+7''" "\<not> int32_literal ''net''" "\<not> int32_literal ''007x''"
    by (simp_all add: literal_eval)
  have 4: "int32_value ''1'' = 1" "int32_value ''22'' = 22" "int32_value ''+7'' = 7"
    by (simp_all add: literal_eval)
  show ?thesis
    using enumerate_int32_names [OF 1 2]
    by (simp add: 3 4 new_Process_def)
qed

text \<open>
  C3 as stated fails in both directions: the entry \<open>-1\<close> is not a non-negative
  integer and gets a handle, with the id \<open>-1\<close>; the entry \<open>2147483648\<close> is a
  non-negative base-10 integer and gets none.
\<close>

theorem negative_and_large_names:
  "fst (Processes (fixture [''-1'', ''2147483648''] [] [])) = ([\<lparr>Pid = - 1, name = []\<rparr>], None) \<and>
   sint (- 1 :: 32 word) = - 1 \<and>
   \<not> nonneg_decimal ''-1'' \<and> nonneg_decimal ''2147483648''"
  by (simp add: Processes_fixture ParseInt_eval new_Process_def literal_eval)

end
